theory Spec2Isabelle
  imports Complex_Main
begin

section \<open>Values of the tracker\<close>

text \<open>
  The tracker of \<^verbatim>\<open>tailtracker/tracker.py\<close> computes on numpy arrays of floats and of
  64-bit integers. Finite floats are modelled as reals, and the sums, products and quotients
  of floats as those of the reals. Three things that the behaviour of the code depends on are
  modelled beside that: the special values that numpy's division by zero produces (the code's
  behaviour on a frame whose maximum is zero depends on them), the sign of a float zero
  where \<^verbatim>\<open>np.arctan2\<close> reads it, and in \<^verbatim>\<open>from_points\<close> the wrap-around of the 64-bit
  integers and the rounding of the floats. A frame is a two-dimensional array of finite
  samples; frames with colour channels are not modelled.
\<close>

datatype error = IndexError | ValueError | ZeroDivisionError

datatype sample = Fin real | PInf | NInf | NaN

type_synonym point = "int \<times> int"

type_synonym frame = "real list list"

type_synonym buffer = "sample list list"

datatype minmax = ArgMin | ArgMax

text \<open>
  The constant \<^verbatim>\<open>np.pi\<close> and the functions \<^verbatim>\<open>np.cos\<close> and \<^verbatim>\<open>np.sin\<close> of numpy are
  floating-point approximations of their mathematical counterparts. They are parameters of
  the model, so that nothing is assumed about their values.
\<close>

record numpy =
  np_pi :: real
  np_cos :: "real \<Rightarrow> real"
  np_sin :: "real \<Rightarrow> real"

text \<open>
  The attributes of a \<^verbatim>\<open>TailTracker\<close> object. The attributes whose Python name starts with
  an underscore carry the prefix \<open>priv\<close>.
\<close>

record tracker =
  start_point :: "point option"
  tail_length :: "real option"
  n_points :: "int option"
  start_angle :: real
  priv_background :: string
  priv_minmax_function :: minmax
  ksize :: int
  n_tip_points :: int
  priv_image :: "frame option"
  priv_normalized :: "buffer option"
  priv_filtered :: "buffer option"
  points :: "point list"
  points_array :: "point list"
  tail_angle :: sample

section \<open>Library functions the tracker calls\<close>

text \<open>\<^verbatim>\<open>str.lower\<close>, on ASCII letters.\<close>

definition lower_char :: "char \<Rightarrow> char" where
  "lower_char c =
     (case map_of (zip ''ABCDEFGHIJKLMNOPQRSTUVWXYZ'' ''abcdefghijklmnopqrstuvwxyz'') c of
        Some d \<Rightarrow> d
      | None \<Rightarrow> c)"

definition lower :: "string \<Rightarrow> string" where
  "lower s = map lower_char s"

text \<open>
  \<^verbatim>\<open>np.arctan2(y, x)\<close>: the angle of the point \<open>(x, y)\<close>. A float zero has a sign, and the
  angle depends on it: for \<open>x < 0\<close> the angle of \<open>(x, +0.0)\<close> is \<open>pi\<close> and the angle of
  \<open>(x, -0.0)\<close> is \<open>-pi\<close>. The sign of a zero \<open>y\<close> is an argument of the model; a zero \<open>x\<close> is
  the positive zero in both calls of the tracker, where \<open>x\<close> is an integer or a difference of
  floats. The angles on the axes are numpy's \<open>pi\<close> and its half.
\<close>

datatype zero_sign = PosZero | NegZero

definition arctan2 :: "numpy \<Rightarrow> zero_sign \<Rightarrow> real \<Rightarrow> real \<Rightarrow> real" where
  "arctan2 np z y x =
     (if 0 < x then arctan (y / x)
      else if x < 0 then
        (if 0 < y \<or> (y = 0 \<and> z = PosZero) then arctan (y / x) + np_pi np
         else arctan (y / x) - np_pi np)
      else if 0 < y then np_pi np / 2
      else if y < 0 then - (np_pi np / 2)
      else 0)"

text \<open>\<^verbatim>\<open>int(r)\<close> and \<^verbatim>\<open>ndarray.astype(int)\<close> on a float: rounding towards zero.\<close>

definition trunc :: "real \<Rightarrow> int" where
  "trunc r = (if 0 \<le> r then \<lfloor>r\<rfloor> else \<lceil>r\<rceil>)"

text \<open>
  The integers of a numpy array made from Python integers are 64-bit integers in two's
  complement: the difference and the negation of such integers wrap around.
\<close>

definition wrap64 :: "int \<Rightarrow> int" where
  "wrap64 i = (i + 2 ^ 63) mod 2 ^ 64 - 2 ^ 63"

text \<open>
  The conversion of a real number to the nearest float of 64 bits (53 bits of precision),
  a tie going to the float with the even last bit: \<open>u\<close> is the distance of two neighbouring
  floats at the magnitude of \<open>x\<close>. The numbers that \<^verbatim>\<open>from_points\<close> converts are integers
  of 64 bits, their squares and the square root of a sum of two squares, all far from the
  overflow and underflow of the format, which is not modelled.
\<close>

definition round_even :: "real \<Rightarrow> int" where
  "round_even y =
     (let f = \<lfloor>y\<rfloor>; r = y - real_of_int f
      in if r < 1 / 2 then f
         else if 1 / 2 < r then f + 1
         else if even f then f
         else f + 1)"

definition fl64 :: "real \<Rightarrow> real" where
  "fl64 x =
     (if x = 0 then 0
      else
        let e = \<lfloor>log 2 \<bar>x\<bar>\<rfloor>;
            u = 2 powr real_of_int (e - 52)
        in real_of_int (round_even (x / u)) * u)"

text \<open>
  \<^verbatim>\<open>np.linalg.norm\<close> of a vector of two integers: the integers are converted to floats,
  and the square root of the sum of their squares is computed in floats, each operation
  rounding its result.
\<close>

definition norm2 :: "int \<times> int \<Rightarrow> real" where
  "norm2 v =
     (let x = fl64 (real_of_int (fst v));
          y = fl64 (real_of_int (snd v))
      in fl64 (sqrt (fl64 (fl64 (x * x) + fl64 (y * y)))))"

section \<open>Construction of a tracker\<close>

text \<open>
  The setter of the \<^verbatim>\<open>background\<close> property: it stores the lower-cased value and the
  function that later picks a candidate, \<^verbatim>\<open>np.argmax\<close> for \<^verbatim>\<open>"dark"\<close> and
  \<^verbatim>\<open>np.argmin\<close> for every other string.
\<close>

definition set_background :: "string \<Rightarrow> 'a tracker_scheme \<Rightarrow> 'a tracker_scheme" where
  "set_background val t =
     (let b = lower val
      in t\<lparr>priv_background := b,
           priv_minmax_function := (if b = ''dark'' then ArgMax else ArgMin)\<rparr>)"

text \<open>\<^verbatim>\<open>TailTracker.__init__\<close>.\<close>

definition init ::
  "point option \<Rightarrow> real option \<Rightarrow> int option \<Rightarrow> real \<Rightarrow> string \<Rightarrow> int \<Rightarrow> int \<Rightarrow> tracker" where
  "init sp len n sa bg k ntip =
     set_background bg
       \<lparr>start_point = sp, tail_length = len, n_points = n, start_angle = sa,
        priv_background = [], priv_minmax_function = ArgMin, ksize = k, n_tip_points = ntip,
        priv_image = None, priv_normalized = None, priv_filtered = None,
        points = [], points_array = [], tail_angle = Fin 0\<rparr>"

text \<open>
  \<^verbatim>\<open>TailTracker.from_points\<close>. The keyword arguments that the caller may pass on
  (\<^verbatim>\<open>background\<close>, \<^verbatim>\<open>ksize\<close>, \<^verbatim>\<open>n_tip_points\<close>) are explicit arguments here. The
  vector \<open>v\<close> is an array of 64-bit integers; \<^verbatim>\<open>np.arctan2\<close> converts its two integer
  arguments to floats, so a zero \<open>-v[1]\<close> is the positive zero.
\<close>

definition from_points ::
  "numpy \<Rightarrow> point \<Rightarrow> point \<Rightarrow> int option \<Rightarrow> string \<Rightarrow> int \<Rightarrow> int \<Rightarrow> tracker" where
  "from_points np p0 p1 n bg k ntip =
     (let v = (wrap64 (fst p1 - fst p0), wrap64 (snd p1 - snd p0));
          d = trunc (norm2 v);
          angle = arctan2 np PosZero (fl64 (real_of_int (wrap64 (- snd v))))
                    (fl64 (real_of_int (fst v)))
      in init (Some p0) (Some (real_of_int d)) n angle bg k ntip)"

text \<open>The euclidean distance of two pixels, as the specification names it.\<close>

definition euclidean_distance :: "point \<Rightarrow> point \<Rightarrow> real" where
  "euclidean_distance p q =
     sqrt ((real_of_int (fst q) - real_of_int (fst p))\<^sup>2
         + (real_of_int (snd q) - real_of_int (snd p))\<^sup>2)"

section \<open>Arrays\<close>

text \<open>
  \<^verbatim>\<open>np.linspace(start, stop, num)\<close>: \<open>num\<close> values from \<open>start\<close> to \<open>stop\<close>, both included,
  at equal distances.
\<close>

definition linspace :: "real \<Rightarrow> real \<Rightarrow> nat \<Rightarrow> real list" where
  "linspace start stop num =
     map (\<lambda>i. start + real i * ((stop - start) / real (num - 1))) [0..<num]"

text \<open>
  A two-dimensional array is the list of its rows. Its shape is \<open>(height, width)\<close>; a video
  frame has rows of one length.
\<close>

definition height :: "'a list list \<Rightarrow> nat" where
  "height b = length b"

definition width :: "'a list list \<Rightarrow> nat" where
  "width b = (case b of [] \<Rightarrow> 0 | r # _ \<Rightarrow> length r)"

text \<open>
  An index \<open>i\<close> into an axis of size \<open>n\<close>: numpy accepts \<open>-n \<le> i < n\<close>, counts a negative
  index from the end of the axis, and raises \<^verbatim>\<open>IndexError\<close> for every other index.
\<close>

definition in_axis :: "int \<Rightarrow> nat \<Rightarrow> bool" where
  "in_axis i n = (- int n \<le> i \<and> i < int n)"

definition axis_pos :: "int \<Rightarrow> nat \<Rightarrow> nat" where
  "axis_pos i n = (if i < 0 then nat (i + int n) else nat i)"

text \<open>
  \<^verbatim>\<open>track_image[ys, xs]\<close> with two integer arrays: the samples at the rows \<open>ys\<close> and columns
  \<open>xs\<close>, pairwise; one index out of bounds raises \<^verbatim>\<open>IndexError\<close> for the whole read.
\<close>

definition getitem2 :: "'a list list \<Rightarrow> int list \<Rightarrow> int list \<Rightarrow> error + 'a list" where
  "getitem2 b ys xs =
     (if list_all (\<lambda>(j, i). in_axis j (height b) \<and> in_axis i (width b)) (zip ys xs)
      then Inr (map (\<lambda>(j, i). b ! axis_pos j (height b) ! axis_pos i (width b)) (zip ys xs))
      else Inl IndexError)"

text \<open>The comparison \<open><\<close> of floats: false as soon as one side is NaN.\<close>

fun sample_less :: "sample \<Rightarrow> sample \<Rightarrow> bool" where
  "sample_less NaN _ = False"
| "sample_less _ NaN = False"
| "sample_less _ NInf = False"
| "sample_less NInf _ = True"
| "sample_less PInf _ = False"
| "sample_less (Fin a) PInf = True"
| "sample_less (Fin a) (Fin b) = (a < b)"

text \<open>
  \<^verbatim>\<open>np.argmin\<close> and \<^verbatim>\<open>np.argmax\<close> scan the array once: a later element replaces the best
  one only when it is strictly better, so the first occurrence of the extremum wins, and
  the first NaN ends the scan and wins. (On an empty array numpy raises \<^verbatim>\<open>ValueError\<close>;
  the tracker only passes the 20 samples of an arc.)
\<close>

fun arg_scan :: "(sample \<Rightarrow> sample \<Rightarrow> bool) \<Rightarrow> sample list \<Rightarrow> nat \<Rightarrow> nat \<Rightarrow> sample \<Rightarrow> nat" where
  "arg_scan better [] i best_i best = best_i"
| "arg_scan better (v # vs) i best_i best =
     (if best = NaN then best_i
      else if v = NaN \<or> better v best then arg_scan better vs (Suc i) i v
      else arg_scan better vs (Suc i) best_i best)"

definition np_argmin :: "sample list \<Rightarrow> nat" where
  "np_argmin vals = (case vals of [] \<Rightarrow> 0 | v # vs \<Rightarrow> arg_scan sample_less vs 1 0 v)"

definition np_argmax :: "sample list \<Rightarrow> nat" where
  "np_argmax vals =
     (case vals of [] \<Rightarrow> 0 | v # vs \<Rightarrow> arg_scan (\<lambda>a b. sample_less b a) vs 1 0 v)"

fun apply_minmax :: "minmax \<Rightarrow> sample list \<Rightarrow> nat" where
  "apply_minmax ArgMin vals = np_argmin vals"
| "apply_minmax ArgMax vals = np_argmax vals"

text \<open>
  \<^verbatim>\<open>np.max\<close> of a frame; numpy raises \<^verbatim>\<open>ValueError\<close> on an array without elements.
\<close>

definition np_max :: "frame \<Rightarrow> error + real" where
  "np_max img = (case concat img of [] \<Rightarrow> Inl ValueError | v # vs \<Rightarrow> Inr (fold max vs v))"

text \<open>
  The division \<^verbatim>\<open>a / m\<close> of numpy arrays never raises: a division by zero gives NaN for
  \<open>0 / 0\<close> and an infinity of the sign of \<open>a\<close> otherwise (with a warning).
\<close>

definition true_divide :: "real \<Rightarrow> real \<Rightarrow> sample" where
  "true_divide a m =
     (if m \<noteq> 0 then Fin (a / m)
      else if a = 0 then NaN
      else if 0 < a then PInf
      else NInf)"

text \<open>
  \<^verbatim>\<open>tail_points[k:]\<close>, a slice from index \<open>k\<close>; a negative \<open>k\<close> counts from the end and a
  start before the first element is the first element.
\<close>

definition slice_from :: "int \<Rightarrow> 'a list \<Rightarrow> 'a list" where
  "slice_from k xs = (if k < 0 then drop (nat (int (length xs) + k)) xs else drop (nat k) xs)"

definition mean :: "real list \<Rightarrow> real" where
  "mean vs = sum_list vs / real (length vs)"

section \<open>The angle estimator\<close>

text \<open>
  \<^verbatim>\<open>TailTracker.compute_tail_angle\<close> on the points of one frame. The mean of an empty slice
  is NaN (with a warning), and so is the angle then; \<^verbatim>\<open>tail_points[0]\<close> raises
  \<^verbatim>\<open>IndexError\<close> when there is no point at all. The float \<open>y\<close> is a difference of floats,
  whose zero is the positive zero, so the zero of \<open>-y\<close> is the negative zero.
\<close>

definition compute_tail_angle :: "numpy \<Rightarrow> point list \<Rightarrow> int \<Rightarrow> real \<Rightarrow> error + sample" where
  "compute_tail_angle np tail_points n baseline =
     (let v0 = (np_cos np baseline, np_sin np baseline);
          tip = slice_from (- n) tail_points
      in case tail_points of
           [] \<Rightarrow> Inl IndexError
         | p0 # _ \<Rightarrow>
             if tip = [] then Inr NaN
             else
               let m = (mean (map (real_of_int \<circ> fst) tip), mean (map (real_of_int \<circ> snd) tip));
                   v1 = (fst m - real_of_int (fst p0), snd m - real_of_int (snd p0));
                   x = fst v1 - fst v0;
                   y = snd v1 - snd v0
               in Inr (Fin (arctan2 np NegZero (- y) x)))"

section \<open>Preprocessing\<close>

text \<open>
  \<^verbatim>\<open>TailTracker.preprocess\<close>. \<^verbatim>\<open>cv2.boxFilter\<close> belongs to OpenCV, not to this program; it
  is the parameter \<open>boxFilter\<close>, called with the kernel size and the normalized image, and
  taken to return a buffer for every kernel size that it is called with.
\<close>

definition preprocess ::
  "(int \<Rightarrow> buffer \<Rightarrow> buffer) \<Rightarrow> tracker \<Rightarrow> frame \<Rightarrow> (error + buffer) \<times> tracker" where
  "preprocess boxFilter t img =
     (let t1 = t\<lparr>priv_image := Some img\<rparr>
      in case np_max img of
           Inl e \<Rightarrow> (Inl e, t1)
         | Inr m \<Rightarrow>
             let normalized = map (map (\<lambda>v. true_divide v m)) img;
                 t2 = t1\<lparr>priv_normalized := Some normalized\<rparr>;
                 filtered = boxFilter (ksize t) normalized
             in (Inr filtered, t2\<lparr>priv_filtered := Some filtered\<rparr>))"

text \<open>
  A box filter of kernel size 1 returns its input; it stands for \<^verbatim>\<open>cv2.boxFilter\<close> where a
  concrete filter is needed.
\<close>

definition no_filter :: "int \<Rightarrow> buffer \<Rightarrow> buffer" where
  "no_filter k b = b"

text \<open>
  The library with the mathematical constant and functions, which numpy's approximate; it
  stands for numpy where concrete values are computed.
\<close>

definition ideal :: numpy where
  "ideal = \<lparr>np_pi = pi, np_cos = cos, np_sin = sin\<rparr>"

section \<open>The arc search\<close>

text \<open>The local variables of the loop of \<^verbatim>\<open>track\<close>, and \<^verbatim>\<open>self.points\<close>.\<close>

record search =
  cur_x :: int
  cur_y :: int
  arc :: "real list"
  pts :: "point list"

text \<open>
  The candidate pixels of one step, \<^verbatim>\<open>xs\<close> and \<^verbatim>\<open>ys\<close> after \<^verbatim>\<open>astype(int)\<close>: one pixel for
  each angle of the arc, at the distance \<open>spacing\<close> from the current point, with the y axis
  pointing down.
\<close>

definition arc_xs :: "numpy \<Rightarrow> real \<Rightarrow> search \<Rightarrow> int list" where
  "arc_xs np spacing s = map (\<lambda>a. trunc (real_of_int (cur_x s) + spacing * np_cos np a)) (arc s)"

definition arc_ys :: "numpy \<Rightarrow> real \<Rightarrow> search \<Rightarrow> int list" where
  "arc_ys np spacing s = map (\<lambda>a. trunc (real_of_int (cur_y s) - spacing * np_sin np a)) (arc s)"

text \<open>
  The body of the loop. The read \<^verbatim>\<open>track_image[ys, xs]\<close> is the only statement of the
  \<^verbatim>\<open>try\<close> block that can raise, and it raises \<^verbatim>\<open>IndexError\<close> only; the handler appends the
  last point again and leaves \<open>x\<close>, \<open>y\<close> and \<open>arc\<close> as they were.
\<close>

definition search_step :: "numpy \<Rightarrow> minmax \<Rightarrow> buffer \<Rightarrow> real \<Rightarrow> search \<Rightarrow> search" where
  "search_step np mm track_image spacing s =
     (let xs = arc_xs np spacing s;
          ys = arc_ys np spacing s
      in case getitem2 track_image ys xs of
           Inl e \<Rightarrow> s\<lparr>pts := pts s @ [last (pts s)]\<rparr>
         | Inr vals \<Rightarrow>
             let idx = apply_minmax mm vals;
                 x = xs ! idx;
                 y = ys ! idx
             in \<lparr>cur_x = x, cur_y = y,
                 arc = linspace (arc s ! idx - np_pi np / 2) (arc s ! idx + np_pi np / 2) 20,
                 pts = pts s @ [(x, y)]\<rparr>)"

fun track_loop :: "numpy \<Rightarrow> nat \<Rightarrow> minmax \<Rightarrow> buffer \<Rightarrow> real \<Rightarrow> search \<Rightarrow> search" where
  "track_loop np 0 mm track_image spacing s = s"
| "track_loop np (Suc j) mm track_image spacing s =
     track_loop np j mm track_image spacing (search_step np mm track_image spacing s)"

text \<open>
  The state of the search before the first step: the arc of 180 degrees around the start
  angle, and the start point as current point and only point of the list.
\<close>

definition initial_search :: "numpy \<Rightarrow> real \<Rightarrow> point \<Rightarrow> search" where
  "initial_search np angle p =
     \<lparr>cur_x = fst p, cur_y = snd p,
      arc = map (\<lambda>a. a + angle) (linspace (- np_pi np / 2) (np_pi np / 2) 20),
      pts = [(fst p, snd p)]\<rparr>"

text \<open>
  \<^verbatim>\<open>TailTracker.track\<close>: the returned value (\<^verbatim>\<open>None\<close> or the tail angle) or the exception
  that leaves the method, and the tracker after the call. The division
  \<^verbatim>\<open>float(self.tail_length) / self.n_points\<close> of Python numbers raises
  \<^verbatim>\<open>ZeroDivisionError\<close> for \<open>n_points = 0\<close>; \<^verbatim>\<open>range(n_points)\<close> is empty for a negative
  \<open>n_points\<close>.
\<close>

definition track ::
  "numpy \<Rightarrow> (int \<Rightarrow> buffer \<Rightarrow> buffer) \<Rightarrow> tracker \<Rightarrow> frame \<Rightarrow> (error + sample option) \<times> tracker" where
  "track np boxFilter t img =
     (case (start_point t, tail_length t, n_points t) of
        (Some p, Some len, Some n) \<Rightarrow>
          (case preprocess boxFilter t img of
             (Inl e, t1) \<Rightarrow> (Inl e, t1)
           | (Inr track_image, t1) \<Rightarrow>
               if n = 0 then (Inl ZeroDivisionError, t1)
               else
                 let spacing = len / real_of_int n;
                     s = track_loop np (nat n) (priv_minmax_function t) track_image spacing
                           (initial_search np (start_angle t) p);
                     t2 = t1\<lparr>points := pts s, points_array := pts s\<rparr>
                 in (case compute_tail_angle np (pts s) (n_tip_points t) (start_angle t) of
                       Inl e \<Rightarrow> (Inl e, t2)
                     | Inr a \<Rightarrow> (Inr (Some a), t2\<lparr>tail_angle := a\<rparr>)))
      | _ \<Rightarrow> (Inr None, t))"

text \<open>The tracker after tracking a list of frames one after the other.\<close>

fun track_frames :: "numpy \<Rightarrow> (int \<Rightarrow> buffer \<Rightarrow> buffer) \<Rightarrow> tracker \<Rightarrow> frame list \<Rightarrow> tracker" where
  "track_frames np boxFilter t [] = t"
| "track_frames np boxFilter t (img # imgs) =
     track_frames np boxFilter (snd (track np boxFilter t img)) imgs"

text \<open>
  The configuration of a tracker: the attributes that \<^verbatim>\<open>__init__\<close> takes and that the
  caller may set. The other attributes are written by \<^verbatim>\<open>preprocess\<close> and \<^verbatim>\<open>track\<close>.
\<close>

definition config ::
  "tracker \<Rightarrow> point option \<times> real option \<times> int option \<times> real \<times> string \<times> minmax \<times> int \<times> int" where
  "config t =
     (start_point t, tail_length t, n_points t, start_angle t, priv_background t,
      priv_minmax_function t, ksize t, n_tip_points t)"

section \<open>Notions of the specification\<close>

text \<open>The last \<open>k\<close> points of a chain, and the coordinate-wise mean of a list of points.\<close>

definition last_points :: "nat \<Rightarrow> 'a list \<Rightarrow> 'a list" where
  "last_points k chain = drop (length chain - k) chain"

definition point_mean :: "point list \<Rightarrow> real \<times> real" where
  "point_mean ps =
     (real_of_int (sum_list (map fst ps)) / real (length ps),
      real_of_int (sum_list (map snd ps)) / real (length ps))"













section \<open>The seed estimator\<close>

lemma init_fields:
  "start_point (init sp len n sa bg k ntip) = sp"
  "tail_length (init sp len n sa bg k ntip) = len"
  "n_points (init sp len n sa bg k ntip) = n"
  "start_angle (init sp len n sa bg k ntip) = sa"
  "ksize (init sp len n sa bg k ntip) = k"
  "n_tip_points (init sp len n sa bg k ntip) = ntip"
  by (simp_all add: init_def set_background_def Let_def)

lemma ideal_fields [simp]:
  "np_pi ideal = pi" "np_cos ideal = cos" "np_sin ideal = sin"
  by (simp_all add: ideal_def)

lemma trunc_nonneg: "0 \<le> r \<Longrightarrow> trunc r = \<lfloor>r\<rfloor>"
  by (simp add: trunc_def)


lemma round_even_of_int: "round_even (real_of_int n) = n"
  by (simp add: round_even_def)

lemma round_even_err: "\<bar>real_of_int (round_even y) - y\<bar> \<le> 1 / 2"
proof -
  have "real_of_int \<lfloor>y\<rfloor> \<le> y" "y < real_of_int \<lfloor>y\<rfloor> + 1"
    by linarith+
  then show ?thesis
    by (auto simp: round_even_def Let_def)
qed

lemma floor_log2_bounds:
  assumes "0 < a"
  shows "2 powr real_of_int \<lfloor>log 2 a\<rfloor> \<le> a" and "a < 2 powr real_of_int (\<lfloor>log 2 a\<rfloor> + 1)"
proof -
  have a: "2 powr log 2 a = a" using assms by simp
  have "2 powr real_of_int \<lfloor>log 2 a\<rfloor> \<le> 2 powr log 2 a"
    by (rule powr_mono) simp_all
  with a show "2 powr real_of_int \<lfloor>log 2 a\<rfloor> \<le> a" by simp
  have "log 2 a < real_of_int (\<lfloor>log 2 a\<rfloor> + 1)" by linarith
  then have "2 powr log 2 a < 2 powr real_of_int (\<lfloor>log 2 a\<rfloor> + 1)"
    by (rule powr_less_mono) simp
  with a show "a < 2 powr real_of_int (\<lfloor>log 2 a\<rfloor> + 1)" by simp
qed

lemma floor_log2_le:
  assumes "0 < a" and "a < 2 ^ k"
  shows "\<lfloor>log 2 a\<rfloor> < int k"
proof -
  have "log 2 a < real k"
    using assms by (simp add: log_less_iff powr_realpow)
  then show ?thesis by linarith
qed

lemma fl64_exact:
  assumes "x = real_of_int k * 2 powr real_of_int (\<lfloor>log 2 \<bar>x\<bar>\<rfloor> - 52)"
  shows "fl64 x = x"
proof (cases "x = 0")
  case True
  then show ?thesis by (simp add: fl64_def)
next
  case False
  let ?u = "2 powr real_of_int (\<lfloor>log 2 \<bar>x\<bar>\<rfloor> - 52)"
  have u: "0 < ?u" by simp
  from assms have "x / ?u = real_of_int k" using u by (simp add: field_simps)
  then have "real_of_int (round_even (x / ?u)) * ?u = real_of_int k * ?u"
    by (simp add: round_even_of_int)
  with False assms show ?thesis by (simp add: fl64_def Let_def)
qed

lemma powr2_nonpos:
  assumes "k \<le> 0"
  shows "2 powr real_of_int k = inverse (2 ^ nat (- k))"
  using assms powr_real_of_int [of 2 k] by (cases "k = 0") simp_all

lemma fl64_of_int:
  assumes "\<bar>n\<bar> \<le> 2 ^ 53"
  shows "fl64 (real_of_int n) = real_of_int n"
proof (cases "n = 0")
  case True
  then show ?thesis by (simp add: fl64_def)
next
  case False
  define x where "x = real_of_int n"
  define e where "e = \<lfloor>log 2 \<bar>x\<bar>\<rfloor>"
  define u where "u = 2 powr real_of_int (e - 52)"
  from False have pos: "0 < \<bar>x\<bar>" and one: "1 \<le> \<bar>x\<bar>" by (simp_all add: x_def)
  have low: "2 powr real_of_int e \<le> \<bar>x\<bar>"
    unfolding e_def by (rule floor_log2_bounds(1) [OF pos])
  from assms have up: "\<bar>x\<bar> \<le> 2 ^ 53"
    unfolding x_def by (metis of_int_abs of_int_le_iff of_int_numeral of_int_power)
  with low have "2 powr real_of_int e \<le> 2 powr real_of_int 53"
    by (simp add: powr_real_of_int)
  then have "real_of_int e \<le> real_of_int 53"
    by (rule iffD1 [OF powr_le_cancel_iff, rotated]) simp
  then have e53: "e \<le> 53" by (simp only: of_int_le_iff)
  have "\<exists>k. x = real_of_int k * u"
  proof (cases "e \<le> 52")
    case True
    define p where "p = (2::real) ^ nat (- (e - 52))"
    have "u = inverse p"
      unfolding u_def p_def by (rule powr2_nonpos) (use True in simp)
    moreover have "0 < p" by (simp add: p_def)
    ultimately have "x = (x * p) * u" by simp
    moreover have "x * p = real_of_int (n * 2 ^ nat (- (e - 52)))"
      by (simp add: x_def p_def)
    ultimately show ?thesis by metis
  next
    case False
    with e53 have e: "e = 53" by simp
    then have u2: "u = 2" by (simp add: u_def)
    from low e have "2 ^ 53 \<le> \<bar>x\<bar>" by (simp add: powr_real_of_int)
    with up have "\<bar>x\<bar> = 2 ^ 53" by simp
    then have "\<bar>n\<bar> = 2 ^ 53"
      unfolding x_def by (metis of_int_abs of_int_eq_iff of_int_numeral of_int_power)
    then have "n = 2 ^ 53 \<or> n = - (2 ^ 53)" by (auto simp: abs_if split: if_splits)
    then have "n = (n div 2) * 2" by auto
    then have "x = real_of_int (n div 2) * 2"
      unfolding x_def by (metis of_int_mult of_int_numeral)
    with u2 show ?thesis by auto
  qed
  then obtain k where "x = real_of_int k * 2 powr real_of_int (\<lfloor>log 2 \<bar>x\<bar>\<rfloor> - 52)"
    unfolding u_def e_def by blast
  then have "fl64 x = x" by (rule fl64_exact)
  then show ?thesis by (simp only: x_def)
qed

lemma fl64_err:
  assumes "1 \<le> x" and "x < 2 ^ 26"
  shows "\<bar>fl64 x - x\<bar> \<le> 1 / 2 ^ 28"
proof -
  define e where "e = \<lfloor>log 2 \<bar>x\<bar>\<rfloor>"
  define u where "u = 2 powr real_of_int (e - 52)"
  from assms have x: "x \<noteq> 0" "\<bar>x\<bar> = x" "0 < x" by simp_all
  have "e < int 26"
    unfolding e_def x(2) by (rule floor_log2_le) (use assms x in simp_all)
  then have "e - 52 \<le> - 27" by simp
  then have "real_of_int (e - 52) \<le> real_of_int (- 27)" by (simp only: of_int_le_iff)
  then have "u \<le> 2 powr real_of_int (- 27)"
    unfolding u_def by (rule powr_mono) simp
  also have "\<dots> = 1 / 2 ^ 27"
    using powr2_nonpos [of "- 27"] by (simp add: inverse_eq_divide)
  finally have u27: "u \<le> 1 / 2 ^ 27" .
  have u0: "0 < u" by (simp add: u_def)
  have "fl64 x = real_of_int (round_even (x / u)) * u"
    using x(1) by (simp add: fl64_def Let_def e_def u_def)
  then have "fl64 x - x = (real_of_int (round_even (x / u)) - x / u) * u"
    using u0 by (simp add: field_simps)
  then have "\<bar>fl64 x - x\<bar> = \<bar>real_of_int (round_even (x / u)) - x / u\<bar> * u"
    using u0 by (simp add: abs_mult)
  also have "\<dots> \<le> (1 / 2) * u"
    using round_even_err [of "x / u"] u0 by (intro mult_right_mono) simp_all
  also have "\<dots> \<le> (1 / 2) * (1 / 2 ^ 27)"
    using u27 by simp
  finally show ?thesis by simp
qed

lemma fl64_sqrt_floor:
  assumes "0 \<le> k" and "k \<le> 2 ^ 51"
  shows "\<lfloor>fl64 (sqrt (real_of_int k))\<rfloor> = \<lfloor>sqrt (real_of_int k)\<rfloor>"
proof (cases "k = 0")
  case True
  then show ?thesis by (simp add: fl64_def)
next
  case False
  define x where "x = sqrt (real_of_int k)"
  define m where "m = \<lfloor>x\<rfloor>"
  define M where "M = real_of_int m"
  from False assms have k1: "1 \<le> real_of_int k" by simp
  then have x1: "1 \<le> x" by (simp add: x_def)
  have xx: "x * x = real_of_int k" using assms by (simp add: x_def)
  have "real_of_int k \<le> 2 ^ 51" using assms(2) by (metis of_int_le_iff of_int_numeral of_int_power)
  then have "real_of_int k < (2 ^ 26)\<^sup>2" by simp
  then have x26: "x < 2 ^ 26"
    unfolding x_def by (rule real_less_lsqrt [rotated]) simp
  have mx: "M \<le> x" "x < M + 1" unfolding M_def m_def by linarith+
  from x1 have m1: "1 \<le> m" unfolding m_def by simp
  then have M1: "1 \<le> M" by (simp add: M_def)
  from mx x26 have M26: "M \<le> 2 ^ 26" by simp
  have err: "\<bar>fl64 x - x\<bar> \<le> 1 / 2 ^ 28" using x1 x26 by (rule fl64_err)
  have "M \<le> fl64 x \<and> fl64 x < M + 1"
  proof (cases "real_of_int k = M * M")
    case True
    then have "x * x = M * M" by (simp add: xx)
    with x1 M1 have "x = M"
      by (metis abs_of_nonneg dual_order.trans zero_le_one mult.commute power2_eq_square
          real_sqrt_abs2 real_sqrt_mult_self)
    moreover have "\<bar>m\<bar> \<le> 2 ^ 53"
    proof -
      from M26 have "real_of_int m \<le> real_of_int (2 ^ 53)" by (simp add: M_def)
      then have "m \<le> 2 ^ 53" by (simp only: of_int_le_iff)
      with m1 show ?thesis by simp
    qed
    then have "fl64 (real_of_int m) = real_of_int m" by (rule fl64_of_int)
    ultimately show ?thesis by (simp add: M_def)
  next
    case False
    have "M * M \<le> x * x" using mx(1) M1 by (intro mult_mono) simp_all
    with False xx have "M * M < real_of_int k" by simp
    then have "real_of_int (m * m) < real_of_int k" by (simp add: M_def)
    then have "m * m < k" by (simp only: of_int_less_iff)
    then have "m * m + 1 \<le> k" by simp
    then have "real_of_int (m * m + 1) \<le> real_of_int k" by (simp only: of_int_le_iff)
    then have lowk: "M * M + 1 \<le> real_of_int k" by (simp add: M_def)
    have "x * x < (M + 1) * (M + 1)" using mx(2) x1 by (intro mult_strict_mono) simp_all
    then have "real_of_int k < real_of_int ((m + 1) * (m + 1))" by (simp add: xx M_def)
    then have "k < (m + 1) * (m + 1)" by (simp only: of_int_less_iff)
    then have "k + 1 \<le> (m + 1) * (m + 1)" by simp
    then have "real_of_int (k + 1) \<le> real_of_int ((m + 1) * (m + 1))" by (simp only: of_int_le_iff)
    then have upk: "real_of_int k \<le> (M + 1) * (M + 1) - 1" by (simp add: M_def)
    have "(M + 1 / 2 ^ 28)\<^sup>2 = M * M + M / 2 ^ 27 + 1 / 2 ^ 56"
      by (simp add: power2_eq_square algebra_simps)
    also have "\<dots> \<le> M * M + 1" using M26 by (simp add: field_simps)
    finally have "(M + 1 / 2 ^ 28)\<^sup>2 \<le> real_of_int k" using lowk by simp
    then have lo: "M + 1 / 2 ^ 28 \<le> x" unfolding x_def by (rule real_le_rsqrt)
    have "real_of_int k \<le> (M + 1) * (M + 1) - 1" by (rule upk)
    also have "\<dots> < (M + 1) * (M + 1) - (M + 1) / 2 ^ 27 + 1 / 2 ^ 56"
      using M26 by (simp add: field_simps)
    also have "\<dots> = (M + 1 - 1 / 2 ^ 28)\<^sup>2"
      by (simp add: power2_eq_square field_simps)
    finally have "real_of_int k < (M + 1 - 1 / 2 ^ 28)\<^sup>2" .
    then have hi: "x < M + 1 - 1 / 2 ^ 28"
      unfolding x_def by (rule real_less_lsqrt [rotated]) (use M1 in simp)
    from err have "fl64 x - x \<le> 1 / 2 ^ 28" "x - fl64 x \<le> 1 / 2 ^ 28"
      by (simp_all only: abs_le_iff minus_diff_eq)
    with lo hi show ?thesis by linarith
  qed
  then have "\<lfloor>fl64 x\<rfloor> = m" unfolding M_def by linarith
  then show ?thesis by (simp add: x_def m_def)
qed

lemma norm2_floor:
  assumes "\<bar>a\<bar> \<le> 2 ^ 25" and "\<bar>b\<bar> \<le> 2 ^ 25"
  shows "trunc (norm2 (a, b)) = \<lfloor>sqrt (real_of_int (a * a + b * b))\<rfloor>"
proof -
  have sq: "0 \<le> c * c \<and> c * c \<le> 2 ^ 50" if "\<bar>c\<bar> \<le> 2 ^ 25" for c :: int
  proof -
    have "c * c = \<bar>c\<bar> * \<bar>c\<bar>" by simp
    also have "\<dots> \<le> 2 ^ 25 * 2 ^ 25" using that by (intro mult_mono) simp_all
    finally show ?thesis by simp
  qed
  have exact: "fl64 (real_of_int c) = real_of_int c" if "\<bar>c\<bar> \<le> 2 ^ 53" for c
    using that by (rule fl64_of_int)
  have fa: "fl64 (real_of_int a) = real_of_int a" using assms(1) by (intro exact) simp
  have fb: "fl64 (real_of_int b) = real_of_int b" using assms(2) by (intro exact) simp
  have faa: "fl64 (real_of_int (a * a)) = real_of_int (a * a)"
    using sq [OF assms(1)] by (intro exact) simp
  have fbb: "fl64 (real_of_int (b * b)) = real_of_int (b * b)"
    using sq [OF assms(2)] by (intro exact) simp
  have k: "0 \<le> a * a + b * b" "a * a + b * b \<le> 2 ^ 51"
    using sq [OF assms(1)] sq [OF assms(2)] by simp_all
  have fs: "fl64 (real_of_int (a * a + b * b)) = real_of_int (a * a + b * b)"
    using k by (intro exact) simp
  have n: "norm2 (a, b) = fl64 (sqrt (real_of_int (a * a + b * b)))"
    using fa fb faa fbb fs
    by (simp add: norm2_def Let_def del: of_int_mult of_int_add)
       (metis of_int_add of_int_mult)
  have fl: "\<lfloor>norm2 (a, b)\<rfloor> = \<lfloor>sqrt (real_of_int (a * a + b * b))\<rfloor>"
    unfolding n using k by (rule fl64_sqrt_floor)
  have "0 \<le> \<lfloor>sqrt (real_of_int (a * a + b * b))\<rfloor>" using k by simp
  then have "0 \<le> \<lfloor>norm2 (a, b)\<rfloor>" by (simp only: fl)
  then have "0 \<le> norm2 (a, b)" by (simp only: zero_le_floor)
  with fl show ?thesis by (simp add: trunc_def)
qed

lemma wrap64_id: "- (2 ^ 63) \<le> i \<Longrightarrow> i < 2 ^ 63 \<Longrightarrow> wrap64 i = i"
  by (simp add: wrap64_def)

lemma wrap64_small: "\<bar>i\<bar> \<le> 2 ^ 53 \<Longrightarrow> wrap64 i = i"
  by (rule wrap64_id) simp_all


lemma from_points_tail_length:
  assumes "\<bar>fst p0\<bar> \<le> 2 ^ 24" and "\<bar>snd p0\<bar> \<le> 2 ^ 24"
    and "\<bar>fst p1\<bar> \<le> 2 ^ 24" and "\<bar>snd p1\<bar> \<le> 2 ^ 24"
  shows "tail_length (from_points np p0 p1 n bg k ntip)
           = Some (real_of_int \<lfloor>euclidean_distance p0 p1\<rfloor>)"
proof -
  define a where "a = fst p1 - fst p0"
  define b where "b = snd p1 - snd p0"
  have a: "\<bar>a\<bar> \<le> 2 ^ 25" using assms(1,3) by (simp add: a_def)
  have b: "\<bar>b\<bar> \<le> 2 ^ 25" using assms(2,4) by (simp add: b_def)
  have wa: "wrap64 a = a" using a by (intro wrap64_small) simp
  have wb: "wrap64 b = b" using b by (intro wrap64_small) simp
  have "euclidean_distance p0 p1 = sqrt (real_of_int (a * a + b * b))"
    by (simp add: euclidean_distance_def a_def b_def power2_eq_square)
  moreover have "tail_length (from_points np p0 p1 n bg k ntip)
      = Some (real_of_int (trunc (norm2 (wrap64 a, wrap64 b))))"
    by (simp add: from_points_def Let_def init_fields a_def b_def)
  ultimately show ?thesis
    by (simp only: wa wb norm2_floor [OF a b])
qed


lemma floor_sqrt_2: "\<lfloor>sqrt 2\<rfloor> = 1"
proof -
  have "1 \<le> sqrt 2" by simp
  moreover have "sqrt 2 < 2"
    by (rule real_less_lsqrt) simp_all
  ultimately show ?thesis by (simp add: floor_eq_iff)
qed

lemma floor_sqrt_5: "\<lfloor>sqrt 5\<rfloor> = 2"
proof -
  have "2 \<le> sqrt 5" by (rule real_le_rsqrt) simp
  moreover have "sqrt 5 < 3"
    by (rule real_less_lsqrt) simp_all
  ultimately show ?thesis by (simp add: floor_eq_iff)
qed


text \<open>
  C7, the claim as the specification states it: the tail length of the configuration is the
  euclidean distance of the two points. It fails at \<open>(0,0)\<close>, \<open>(1,1)\<close>: the distance is
  \<open>sqrt 2\<close> and the stored length is \<open>1\<close>.
\<close>

theorem from_points_length_counterexample:
  "tail_length (from_points ideal (0, 0) (1, 1) (Some 10) ''light'' 7 3)
     \<noteq> Some (euclidean_distance (0, 0) (1, 1))"
proof -
  have d: "euclidean_distance (0, 0) (1, 1) = sqrt 2"
    by (simp add: euclidean_distance_def)
  have "tail_length (from_points ideal (0, 0) (1, 1) (Some 10) ''light'' 7 3)
      = Some (real_of_int \<lfloor>euclidean_distance (0, 0) (1, 1)\<rfloor>)"
    by (rule from_points_tail_length) simp_all
  then have "tail_length (from_points ideal (0, 0) (1, 1) (Some 10) ''light'' 7 3) = Some 1"
    by (simp add: d floor_sqrt_2)
  moreover have "sqrt 2 \<noteq> 1" by simp
  ultimately show ?thesis by (simp add: d)
qed

text \<open>
  C7, amended: for two points whose coordinates are at most \<open>2^24\<close> in absolute value,
  \<^verbatim>\<open>from_points\<close> stores the euclidean distance of the two points rounded down to an
  integer (\<^verbatim>\<open>int(np.linalg.norm(v))\<close>); for \<open>(0,0)\<close> and \<open>(10,0)\<close> that is \<open>10\<close>. (For such
  points the squares and their sum are floats, and the rounding of the square root does not
  reach the next integer.)
\<close>

theorem from_points_length:
  assumes "\<bar>fst p0\<bar> \<le> 2 ^ 24" and "\<bar>snd p0\<bar> \<le> 2 ^ 24"
    and "\<bar>fst p1\<bar> \<le> 2 ^ 24" and "\<bar>snd p1\<bar> \<le> 2 ^ 24"
  shows "tail_length (from_points np p0 p1 n bg k ntip)
           = Some (real_of_int \<lfloor>euclidean_distance p0 p1\<rfloor>)
         \<and> tail_length (from_points np (0, 0) (10, 0) n bg k ntip) = Some 10"
proof -
  have "tail_length (from_points np (0, 0) (10, 0) n bg k ntip)
      = Some (real_of_int \<lfloor>euclidean_distance (0, 0) (10, 0)\<rfloor>)"
    by (rule from_points_tail_length) simp_all
  moreover have "euclidean_distance (0, 0) (10, 0) = 10"
    by (simp add: euclidean_distance_def)
  ultimately have "tail_length (from_points np (0, 0) (10, 0) n bg k ntip) = Some 10"
    by simp
  with from_points_tail_length [OF assms] show ?thesis by simp
qed

theorem from_points_length_witness:
  "\<bar>fst ((0, 0) :: point)\<bar> \<le> 2 ^ 24 \<and> \<bar>snd ((0, 0) :: point)\<bar> \<le> 2 ^ 24
   \<and> \<bar>fst ((1, 2) :: point)\<bar> \<le> 2 ^ 24 \<and> \<bar>snd ((1, 2) :: point)\<bar> \<le> 2 ^ 24
   \<and> tail_length (from_points ideal (0, 0) (1, 2) (Some 10) ''light'' 7 3) = Some 2"
proof -
  have h: "\<bar>fst ((0, 0) :: point)\<bar> \<le> 2 ^ 24" "\<bar>snd ((0, 0) :: point)\<bar> \<le> 2 ^ 24"
      "\<bar>fst ((1, 2) :: point)\<bar> \<le> 2 ^ 24" "\<bar>snd ((1, 2) :: point)\<bar> \<le> 2 ^ 24"
    by simp_all
  have "euclidean_distance (0, 0) (1, 2) = sqrt 5"
    by (simp add: euclidean_distance_def)
  with from_points_length [OF h, of ideal "Some 10" "''light''" 7 3] show ?thesis
    by (simp add: floor_sqrt_5)
qed




section \<open>Preprocessing of a frame whose maximum is zero\<close>

lemma np_max_bound:
  assumes "np_max img = Inr m" and "r \<in> set img" and "v \<in> set r"
  shows "v \<le> m"
proof -
  from assms(2,3) have mem: "v \<in> set (concat img)" by auto
  then obtain w ws where c: "concat img = w # ws" by (cases "concat img") auto
  with assms(1) have "m = fold max ws w" by (simp add: np_max_def)
  also have "\<dots> = Max (set (w # ws))" by (rule Max.set_eq_fold [symmetric])
  finally show ?thesis using mem c by simp
qed

lemma preprocess_ok:
  "np_max img = Inr m \<Longrightarrow>
   preprocess boxFilter t img =
     (Inr (boxFilter (ksize t) (map (map (\<lambda>v. true_divide v m)) img)),
      t\<lparr>priv_image := Some img,
        priv_normalized := Some (map (map (\<lambda>v. true_divide v m)) img),
        priv_filtered := Some (boxFilter (ksize t) (map (map (\<lambda>v. true_divide v m)) img))\<rparr>)"
  by (simp add: preprocess_def Let_def)

text \<open>
  C4, the claim as the specification states it: \<^verbatim>\<open>preprocess\<close> raises an error for a frame
  whose maximum is zero. On the all-zero frame of two rows and two columns no error is
  raised.
\<close>

theorem preprocess_zero_frame_counterexample:
  "\<not> isl (fst (preprocess no_filter (init None None None 0 ''light'' 1 3) [[0, 0], [0, 0]]))"
  by (simp add: preprocess_def np_max_def Let_def)

text \<open>
  C4, amended: for a frame whose maximum is zero \<^verbatim>\<open>preprocess\<close> raises no error. The
  division by the maximum turns every zero sample into NaN and every negative sample into
  negative infinity, and the box filter of that buffer is returned.
\<close>

theorem preprocess_zero_max:
  assumes "np_max img = Inr 0"
  shows "fst (preprocess boxFilter t img)
           = Inr (boxFilter (ksize t) (map (map (\<lambda>v. if v = 0 then NaN else NInf)) img))"
proof -
  have eq: "map (map (\<lambda>v. true_divide v 0)) img = map (map (\<lambda>v. if v = 0 then NaN else NInf)) img"
  proof (rule map_cong [OF refl], rule map_cong [OF refl])
    fix r v assume "r \<in> set img" and "v \<in> set r"
    with assms have "v \<le> 0" by (rule np_max_bound)
    then show "true_divide v 0 = (if v = 0 then NaN else NInf)"
      by (simp add: true_divide_def)
  qed
  have "fst (preprocess boxFilter t img)
          = Inr (boxFilter (ksize t) (map (map (\<lambda>v. true_divide v 0)) img))"
    using assms by (simp add: preprocess_ok)
  then show ?thesis by (simp only: eq)
qed

theorem preprocess_zero_max_witness:
  "np_max [[0, 0], [0, 0]] = Inr 0
   \<and> fst (preprocess no_filter (init None None None 0 ''light'' 1 3) [[0, 0], [0, 0]])
       = Inr [[NaN, NaN], [NaN, NaN]]"
proof -
  have h: "np_max [[0, 0], [0, 0]] = Inr 0" by (simp add: np_max_def)
  show ?thesis
    using h preprocess_zero_max [OF h, of no_filter "init None None None 0 ''light'' 1 3"]
    by (simp add: no_filter_def)
qed

section \<open>The tracker that is not configured\<close>

text \<open>
  C5: when \<^verbatim>\<open>start_point\<close>, \<^verbatim>\<open>tail_length\<close> or \<^verbatim>\<open>n_points\<close> is \<^verbatim>\<open>None\<close>, \<^verbatim>\<open>track\<close>
  returns \<^verbatim>\<open>None\<close> for every frame, raises nothing and leaves the tracker as it was.
\<close>

theorem track_unconfigured:
  assumes "start_point t = None \<or> tail_length t = None \<or> n_points t = None"
  shows "track np boxFilter t img = (Inr None, t)"
  using assms by (auto simp: track_def split: option.splits prod.splits)

theorem track_unconfigured_witness:
  "(start_point (init None None (Some 10) 0 ''light'' 7 3) = None
      \<or> tail_length (init None None (Some 10) 0 ''light'' 7 3) = None
      \<or> n_points (init None None (Some 10) 0 ''light'' 7 3) = None)
   \<and> fst (track ideal no_filter (init None None (Some 10) 0 ''light'' 7 3) [[1, 2], [3, 4]]) = Inr None"
proof -
  have h: "start_point (init None None (Some 10) 0 ''light'' 7 3) = None
      \<or> tail_length (init None None (Some 10) 0 ''light'' 7 3) = None
      \<or> n_points (init None None (Some 10) 0 ''light'' 7 3) = None"
    by (simp add: init_fields)
  show ?thesis
    using h track_unconfigured [OF h, of ideal no_filter "[[1, 2], [3, 4]]"] by simp
qed

section \<open>The tail angle\<close>

lemma slice_from_last:
  "1 \<le> n \<Longrightarrow> slice_from (- n) chain = last_points (nat n) chain"
  by (auto simp: slice_from_def last_points_def intro!: arg_cong [where f = "\<lambda>k. drop k chain"])

lemma sum_list_of_int:
  "sum_list (map (real_of_int \<circ> f) ps) = real_of_int (sum_list (map f ps))"
  by (induction ps) simp_all

lemma mean_of_int:
  "mean (map (real_of_int \<circ> f) ps) = real_of_int (sum_list (map f ps)) / real (length ps)"
  by (simp only: mean_def sum_list_of_int length_map)

text \<open>
  C6: for a chain of at least \<open>n\<close> points and \<open>n \<ge> 1\<close>, the angle is
  \<open>np.arctan2(-dy, dx)\<close> with \<open>(dx, dy)\<close> the mean of the last \<open>n\<close> points, minus the first
  point of the chain, minus \<open>(cos baseline, sin baseline)\<close>, where the zero of \<open>-dy\<close> is the
  negative zero of the floats; with baseline \<open>0\<close> (where numpy's cosine is 1 and its sine
  is 0) the angle is \<open>0\<close> whenever the mean of the last \<open>n\<close> points minus the first point is
  \<open>(1, 0)\<close>.
\<close>

theorem compute_tail_angle_spec:
  assumes "1 \<le> n" and "nat n \<le> length chain"
  shows "compute_tail_angle np chain n baseline
           = Inr (Fin (arctan2 np NegZero
               (- (snd (point_mean (last_points (nat n) chain)) - real_of_int (snd (chain ! 0))
                    - np_sin np baseline))
               (fst (point_mean (last_points (nat n) chain)) - real_of_int (fst (chain ! 0))
                    - np_cos np baseline)))
         \<and> (np_cos np 0 = 1 \<and> np_sin np 0 = 0
              \<and> fst (point_mean (last_points (nat n) chain)) - real_of_int (fst (chain ! 0)) = 1
              \<and> snd (point_mean (last_points (nat n) chain)) - real_of_int (snd (chain ! 0)) = 0
            \<longrightarrow> compute_tail_angle np chain n 0 = Inr (Fin 0))"
proof -
  from assms obtain p0 ps where chain: "chain = p0 # ps"
    by (cases chain) auto
  from assms have tip: "last_points (nat n) chain \<noteq> []"
    by (auto simp: last_points_def)
  have general: "compute_tail_angle np chain n b
           = Inr (Fin (arctan2 np NegZero
               (- (snd (point_mean (last_points (nat n) chain)) - real_of_int (snd (chain ! 0))
                    - np_sin np b))
               (fst (point_mean (last_points (nat n) chain)) - real_of_int (fst (chain ! 0))
                    - np_cos np b)))" for b
    using tip assms(1) unfolding compute_tail_angle_def Let_def slice_from_last [OF assms(1)]
    by (simp add: chain point_mean_def mean_of_int)
  show ?thesis
    by (simp add: general arctan2_def)
qed

theorem compute_tail_angle_spec_witness:
  "(1::int) \<le> 2 \<and> nat 2 \<le> length [(0, 0), (2, 1), (2, - 3) :: point]
   \<and> compute_tail_angle ideal [(0, 0), (2, 1), (2, - 3)] 2 0 = Inr (Fin (pi / 4))"
proof -
  have h1: "(1::int) \<le> 2" by simp
  have h2: "nat 2 \<le> length [(0, 0), (2, 1), (2, - 3) :: point]" by simp
  show ?thesis
    using compute_tail_angle_spec [OF h1 h2, of ideal 0]
    by (simp add: point_mean_def last_points_def arctan2_def arctan_one)
qed

section \<open>The loop of the search\<close>





lemma search_step_pts:
  "\<exists>p. pts (search_step np mm b spacing s) = pts s @ [p]"
  by (cases "getitem2 b (arc_ys np spacing s) (arc_xs np spacing s)")
     (simp_all add: search_step_def Let_def)

lemma track_loop_pts:
  "\<exists>ext. pts (track_loop np j mm b spacing s) = pts s @ ext \<and> length ext = j"
proof (induction j arbitrary: s)
  case 0
  then show ?case by simp
next
  case (Suc j)
  obtain p where p: "pts (search_step np mm b spacing s) = pts s @ [p]"
    using search_step_pts by blast
  from Suc.IH [of "search_step np mm b spacing s"] obtain ext where
    "pts (track_loop np j mm b spacing (search_step np mm b spacing s))
       = pts (search_step np mm b spacing s) @ ext" and "length ext = j"
    by blast
  with p have "pts (track_loop np (Suc j) mm b spacing s) = pts s @ (p # ext)
      \<and> length (p # ext) = Suc j"
    by simp
  then show ?case by blast
qed



lemma compute_tail_angle_total:
  "chain \<noteq> [] \<Longrightarrow> \<exists>a. compute_tail_angle np chain n baseline = Inr a"
  by (cases chain) (simp_all add: compute_tail_angle_def Let_def)

lemma track_loop_pts_nonempty:
  "pts s \<noteq> [] \<Longrightarrow> pts (track_loop np j mm b spacing s) \<noteq> []"
  using track_loop_pts [of np j mm b spacing s] by auto

lemma pts_initial_search: "pts (initial_search np a p) = [p]"
  by (simp add: initial_search_def)

lemma track_configured:
  assumes "start_point t = Some p" "tail_length t = Some len" "n_points t = Some n"
    and "n \<noteq> 0" and "preprocess boxFilter t img = (Inr b, t1)"
  shows "\<exists>a. compute_tail_angle np
                (pts (track_loop np (nat n) (priv_minmax_function t) b (len / real_of_int n)
                        (initial_search np (start_angle t) p)))
                (n_tip_points t) (start_angle t) = Inr a
           \<and> track np boxFilter t img =
               (Inr (Some a),
                t1\<lparr>points := pts (track_loop np (nat n) (priv_minmax_function t) b
                                    (len / real_of_int n) (initial_search np (start_angle t) p)),
                   points_array := pts (track_loop np (nat n) (priv_minmax_function t) b
                                    (len / real_of_int n) (initial_search np (start_angle t) p)),
                   tail_angle := a\<rparr>)"
proof -
  let ?s = "track_loop np (nat n) (priv_minmax_function t) b (len / real_of_int n)
              (initial_search np (start_angle t) p)"
  have "pts ?s \<noteq> []"
    by (rule track_loop_pts_nonempty) (simp add: pts_initial_search)
  then obtain a where a: "compute_tail_angle np (pts ?s) (n_tip_points t) (start_angle t) = Inr a"
    using compute_tail_angle_total by blast
  with assms have "track np boxFilter t img =
      (Inr (Some a), t1\<lparr>points := pts ?s, points_array := pts ?s, tail_angle := a\<rparr>)"
    by (simp add: track_def Let_def)
  with a show ?thesis by blast
qed

lemma np_max_total: "concat img \<noteq> [] \<Longrightarrow> \<exists>m. np_max img = Inr m"
  by (cases "concat img") (simp_all add: np_max_def)

lemma preprocess_cases:
  "(\<exists>e. np_max img = Inl e \<and> preprocess boxFilter t img = (Inl e, t\<lparr>priv_image := Some img\<rparr>))
   \<or> (\<exists>m. np_max img = Inr m \<and>
        preprocess boxFilter t img =
          (Inr (boxFilter (ksize t) (map (map (\<lambda>v. true_divide v m)) img)),
           t\<lparr>priv_image := Some img,
             priv_normalized := Some (map (map (\<lambda>v. true_divide v m)) img),
             priv_filtered := Some (boxFilter (ksize t) (map (map (\<lambda>v. true_divide v m)) img))\<rparr>))"
  by (cases "np_max img") (simp_all add: preprocess_def Let_def)

lemma track_config: "config (snd (track np boxFilter t img)) = config t"
proof (cases "start_point t = None \<or> tail_length t = None \<or> n_points t = None")
  case True
  then show ?thesis by (auto simp: track_def split: option.splits)
next
  case False
  then obtain p len n where c: "start_point t = Some p" "tail_length t = Some len"
      "n_points t = Some n"
    by auto
  from preprocess_cases [of img boxFilter t] show ?thesis
  proof (elim disjE exE conjE)
    fix e assume "preprocess boxFilter t img = (Inl e, t\<lparr>priv_image := Some img\<rparr>)"
    with c show ?thesis by (simp add: track_def config_def)
  next
    fix m
    assume pre: "preprocess boxFilter t img =
          (Inr (boxFilter (ksize t) (map (map (\<lambda>v. true_divide v m)) img)),
           t\<lparr>priv_image := Some img,
             priv_normalized := Some (map (map (\<lambda>v. true_divide v m)) img),
             priv_filtered := Some (boxFilter (ksize t) (map (map (\<lambda>v. true_divide v m)) img))\<rparr>)"
    show ?thesis
    proof (cases "n = 0")
      case True
      with c pre show ?thesis by (simp add: track_def config_def)
    next
      case False
      from track_configured [where np = np, OF c False pre] show ?thesis
        by (auto simp: config_def)
    qed
  qed
qed

lemma track_frames_config: "config (track_frames np boxFilter t history) = config t"
  by (induction history arbitrary: t) (simp_all add: track_config)

lemma track_frames_unconfigured:
  "start_point t = None \<or> tail_length t = None \<or> n_points t = None \<Longrightarrow>
   track_frames np boxFilter t history = t"
proof (induction history)
  case Nil
  then show ?case by simp
next
  case (Cons g history)
  then have "track np boxFilter t g = (Inr None, t)"
    by (auto simp: track_def split: option.splits)
  with Cons show ?case by simp
qed

lemma config_determines:
  assumes "config t' = config t"
  shows "fst (track np boxFilter t' img) = fst (track np boxFilter t img)
         \<and> (\<forall>a. fst (track np boxFilter t img) = Inr (Some a) \<longrightarrow>
              points (snd (track np boxFilter t' img)) = points (snd (track np boxFilter t img))
              \<and> tail_angle (snd (track np boxFilter t' img)) = tail_angle (snd (track np boxFilter t img)))"
proof (cases "start_point t = None \<or> tail_length t = None \<or> n_points t = None")
  case True
  with assms have "start_point t' = None \<or> tail_length t' = None \<or> n_points t' = None"
    by (simp add: config_def)
  then have "track np boxFilter t' img = (Inr None, t')"
    by (auto simp: track_def split: option.splits)
  moreover from True have "track np boxFilter t img = (Inr None, t)"
    by (auto simp: track_def split: option.splits)
  ultimately show ?thesis by simp
next
  case False
  then obtain p len n where c: "start_point t = Some p" "tail_length t = Some len"
      "n_points t = Some n"
    by auto
  with assms have c': "start_point t' = Some p" "tail_length t' = Some len"
      "n_points t' = Some n"
    by (simp_all add: config_def)
  from assms have same: "ksize t' = ksize t" "priv_minmax_function t' = priv_minmax_function t"
      "start_angle t' = start_angle t" "n_tip_points t' = n_tip_points t"
    by (simp_all add: config_def)
  show ?thesis
  proof (cases "np_max img")
    case (Inl e)
    with c c' show ?thesis by (simp add: track_def preprocess_def Let_def)
  next
    case (Inr m)
    let ?b = "boxFilter (ksize t) (map (map (\<lambda>v. true_divide v m)) img)"
    from Inr obtain t1 where pre: "preprocess boxFilter t img = (Inr ?b, t1)"
      by (simp add: preprocess_def Let_def)
    from Inr same obtain t1' where pre': "preprocess boxFilter t' img = (Inr ?b, t1')"
      by (simp add: preprocess_def Let_def)
    show ?thesis
    proof (cases "n = 0")
      case True
      with c c' pre pre' show ?thesis by (simp add: track_def)
    next
      case False
      from track_configured [where np = np, OF c False pre] track_configured [where np = np, OF c' False pre'] same
      show ?thesis by auto
    qed
  qed
qed






section \<open>The chain of points\<close>

text \<open>
  C2: on a configured tracker with \<open>n_points \<ge> 1\<close> and a frame that has samples, \<^verbatim>\<open>track\<close>
  returns an angle and leaves a chain of exactly \<open>n_points + 1\<close> points in \<^verbatim>\<open>points\<close>; the
  point at index 0 is the configured start point, which the call does not change.
\<close>

theorem track_chain:
  assumes "start_point t = Some p" and "tail_length t = Some len" and "n_points t = Some n"
    and "1 \<le> n" and "concat img \<noteq> []"
  shows "(\<exists>a. fst (track np boxFilter t img) = Inr (Some a))
         \<and> int (length (points (snd (track np boxFilter t img)))) = n + 1
         \<and> points (snd (track np boxFilter t img)) ! 0 = p
         \<and> start_point (snd (track np boxFilter t img)) = Some p"
proof -
  from assms(5) obtain m where "np_max img = Inr m"
    using np_max_total by blast
  with preprocess_cases [of img boxFilter t] obtain b t1 where
    pre: "preprocess boxFilter t img = (Inr b, t1)"
    by auto
  from assms(4) have n0: "n \<noteq> 0" by simp
  let ?s = "track_loop np (nat n) (priv_minmax_function t) b (len / real_of_int n)
              (initial_search np (start_angle t) p)"
  from track_configured [where np = np, OF assms(1-3) n0 pre] obtain a where
    tr: "track np boxFilter t img =
           (Inr (Some a), t1\<lparr>points := pts ?s, points_array := pts ?s, tail_angle := a\<rparr>)"
    by blast
  from track_loop_pts [of np "nat n" "priv_minmax_function t" b "len / real_of_int n"
      "initial_search np (start_angle t) p"]
  obtain ext where ext: "pts ?s = p # ext" "length ext = nat n"
    by (auto simp: pts_initial_search)
  have "config (snd (track np boxFilter t img)) = config t" by (rule track_config)
  with assms(1) have "start_point (snd (track np boxFilter t img)) = Some p"
    by (simp add: config_def)
  with tr ext assms(4) show ?thesis by simp
qed

theorem track_chain_witness:
  "start_point (init (Some (2, 2)) (Some 3) (Some 3) 0 ''light'' 1 3) = Some (2, 2)
   \<and> tail_length (init (Some (2, 2)) (Some 3) (Some 3) 0 ''light'' 1 3) = Some 3
   \<and> n_points (init (Some (2, 2)) (Some 3) (Some 3) 0 ''light'' 1 3) = Some 3
   \<and> (1::int) \<le> 3 \<and> concat [[1, 2], [3, 4 :: real]] \<noteq> []
   \<and> int (length (points (snd (track ideal no_filter
           (init (Some (2, 2)) (Some 3) (Some 3) 0 ''light'' 1 3) [[1, 2], [3, 4]])))) = 4
   \<and> points (snd (track ideal no_filter
           (init (Some (2, 2)) (Some 3) (Some 3) 0 ''light'' 1 3) [[1, 2], [3, 4]])) ! 0 = (2, 2)"
proof -
  let ?t = "init (Some (2, 2)) (Some 3) (Some 3) 0 ''light'' 1 3"
  have h: "start_point ?t = Some (2, 2)" "tail_length ?t = Some 3" "n_points ?t = Some 3"
      "(1::int) \<le> 3" "concat [[1, 2], [3, 4 :: real]] \<noteq> []"
    by (simp_all add: init_fields)
  from track_chain [OF h, of ideal no_filter] h show ?thesis by simp
qed

section \<open>Independence of the frames tracked before\<close>

text \<open>
  C9: tracking any list of frames leaves \<^verbatim>\<open>start_point\<close> and \<^verbatim>\<open>start_angle\<close> as they
  were, and \<^verbatim>\<open>track\<close> on a frame gives the same returned value (or exception) after that
  history as without it; whenever the call returns, the chain and the angle that it leaves in
  the tracker are the same as well.
\<close>

theorem track_history_independent:
  "start_point (track_frames np boxFilter t history) = start_point t
   \<and> start_angle (track_frames np boxFilter t history) = start_angle t
   \<and> fst (track np boxFilter (track_frames np boxFilter t history) img) = fst (track np boxFilter t img)
   \<and> (\<not> isl (fst (track np boxFilter t img)) \<longrightarrow>
        points (snd (track np boxFilter (track_frames np boxFilter t history) img))
          = points (snd (track np boxFilter t img))
        \<and> tail_angle (snd (track np boxFilter (track_frames np boxFilter t history) img))
          = tail_angle (snd (track np boxFilter t img)))"
proof -
  let ?t' = "track_frames np boxFilter t history"
  have cfg: "config ?t' = config t" by (rule track_frames_config)
  then have seed: "start_point ?t' = start_point t" "start_angle ?t' = start_angle t"
    by (simp_all add: config_def)
  note det = config_determines [OF cfg, of np boxFilter img]
  have "points (snd (track np boxFilter ?t' img)) = points (snd (track np boxFilter t img))
        \<and> tail_angle (snd (track np boxFilter ?t' img)) = tail_angle (snd (track np boxFilter t img))"
    if ret: "\<not> isl (fst (track np boxFilter t img))"
  proof (cases "fst (track np boxFilter t img)")
    case (Inl e)
    with ret show ?thesis by simp
  next
    case (Inr r)
    show ?thesis
    proof (cases r)
      case (Some a)
      with Inr det show ?thesis by simp
    next
      case None
      have "start_point t = None \<or> tail_length t = None \<or> n_points t = None"
      proof (rule ccontr)
        assume "\<not> ?thesis"
        then obtain p len n where c: "start_point t = Some p" "tail_length t = Some len"
            "n_points t = Some n"
          by auto
        from preprocess_cases [of img boxFilter t] Inr None c show False
        proof (elim disjE exE conjE)
          fix m
          assume pre: "preprocess boxFilter t img =
            (Inr (boxFilter (ksize t) (map (map (\<lambda>v. true_divide v m)) img)),
             t\<lparr>priv_image := Some img,
               priv_normalized := Some (map (map (\<lambda>v. true_divide v m)) img),
               priv_filtered := Some (boxFilter (ksize t) (map (map (\<lambda>v. true_divide v m)) img))\<rparr>)"
          show False
          proof (cases "n = 0")
            case True
            with c pre Inr show False by (simp add: track_def)
          next
            case False
            from track_configured [where np = np, OF c False pre] Inr None show False by auto
          qed
        qed (simp add: track_def)
      qed
      then have "?t' = t" by (rule track_frames_unconfigured)
      then show ?thesis by simp
    qed
  qed
  with seed det show ?thesis by blast
qed

theorem track_history_independent_witness:
  "\<not> isl (fst (track ideal no_filter (init (Some (2, 2)) (Some 3) (Some 3) 0 ''light'' 1 3)
                  [[1, 2], [3, 4]]))
   \<and> points (snd (track ideal no_filter
         (track_frames ideal no_filter (init (Some (2, 2)) (Some 3) (Some 3) 0 ''light'' 1 3)
            [[[9, 8], [7, 6]], [[0, 1], [1, 0]]])
         [[1, 2], [3, 4]]))
     = points (snd (track ideal no_filter (init (Some (2, 2)) (Some 3) (Some 3) 0 ''light'' 1 3)
         [[1, 2], [3, 4]]))"
proof -
  let ?t = "init (Some (2, 2)) (Some 3) (Some 3) 0 ''light'' 1 3"
  have "np_max [[1, 2], [3, 4]] = Inr 4" by (simp add: np_max_def)
  then obtain b t1 where pre: "preprocess no_filter ?t [[1, 2], [3, 4]] = (Inr b, t1)"
    by (simp add: preprocess_def Let_def)
  have c: "start_point ?t = Some (2, 2)" "tail_length ?t = Some 3" "n_points ?t = Some 3"
      "(3::int) \<noteq> 0"
    by (simp_all add: init_fields)
  from track_configured [where np = ideal, OF c pre] have ret: "\<not> isl (fst (track ideal no_filter ?t [[1, 2], [3, 4]]))"
    by auto
  with track_history_independent [of ideal no_filter ?t "[[[9, 8], [7, 6]], [[0, 1], [1, 0]]]" "[[1, 2], [3, 4]]"]
  show ?thesis by blast
qed

section \<open>The selected candidate\<close>







section \<open>Reads of the buffer\<close>



section \<open>The loop and the steps of the specification\<close>



















lemma set_background_minmax:
  "priv_minmax_function (set_background val t)
     = (if priv_background (set_background val t) = ''dark'' then ArgMax else ArgMin)"
  by (simp add: set_background_def Let_def)

section \<open>Two arcs of candidates\<close>





























section \<open>The arc search follows the specification\<close>



section \<open>Candidates outside the buffer\<close>




section \<open>Candidates with negative coordinates\<close>



end
